theory Spec2Isabelle
  imports Complex_Main "HOL-Library.Word"
begin

section \<open>Arrays\<close>

text \<open>
  A numpy array is its shape and its elements in row-major order. Model outputs are
  floating-point arrays; an element is the real number that the float denotes (no NaN,
  no infinity). Arithmetic on such an array gives results in the array's dtype: the
  exact result, rounded by the dtype. The decoder takes that rounding as its parameter
  \<open>fl\<close>. Masks are \<open>uint8\<close> arrays.
\<close>

type_synonym uint8 = "8 word"

record 'a ndarray =
  shape :: "nat list"
  data :: "'a list"

definition ndim :: "'a ndarray \<Rightarrow> nat" where
  "ndim a = length (shape a)"

definition asize :: "'a ndarray \<Rightarrow> nat" where
  "asize a = prod_list (shape a)"

definition wf_array :: "'a ndarray \<Rightarrow> bool" where
  "wf_array a \<longleftrightarrow> length (data a) = asize a"

datatype error = ValueError string | Cv2Error string


section \<open>numpy operations used by the decoder\<close>

text \<open>
  \<open>np.argmax\<close> over one pixel's channel values: the index of the first occurrence of
  the largest value. The scan keeps the best index and value seen so far and replaces
  them only on a strictly larger value.
\<close>

fun argmax_scan :: "nat \<Rightarrow> nat \<Rightarrow> real \<Rightarrow> real list \<Rightarrow> nat" where
  "argmax_scan i b v [] = b"
| "argmax_scan i b v (x # xs) =
     (if v < x then argmax_scan (Suc i) i x xs else argmax_scan (Suc i) b v xs)"

fun argmax :: "real list \<Rightarrow> nat" where
  "argmax [] = 0"
| "argmax (x # xs) = argmax_scan 1 0 x xs"

text \<open>The channel values of pixel \<open>p\<close> of an array whose last axis has \<open>c\<close> entries.\<close>

definition pixel :: "nat \<Rightarrow> 'a list \<Rightarrow> nat \<Rightarrow> 'a list" where
  "pixel c xs p = take c (drop (p * c) xs)"

text \<open>\<open>np.argmax(prediction, axis=-1)\<close>: one index per position of the leading axes.\<close>

definition argmax_last :: "real ndarray \<Rightarrow> nat ndarray" where
  "argmax_last a =
     \<lparr>shape = butlast (shape a),
      data = map (\<lambda>p. argmax (pixel (last (shape a)) (data a) p))
                 [0 ..< prod_list (butlast (shape a))]\<rparr>"

text \<open>\<open>.astype(np.uint8)\<close> on an integer array keeps the low eight bits.\<close>

definition index_astype_uint8 :: "nat ndarray \<Rightarrow> uint8 ndarray" where
  "index_astype_uint8 a = \<lparr>shape = shape a, data = map word_of_nat (data a)\<rparr>"

text \<open>
  \<open>.astype(np.uint8)\<close> on a floating-point value truncates towards zero. For a value
  outside \<open>[0, 256)\<close> the conversion is platform-defined; the low eight bits of the
  truncated value are taken here, and no theorem below depends on that choice: each
  states the value of a pixel only where the cast value lies in \<open>[0, 256)\<close>.
\<close>

definition float_astype_uint8 :: "real \<Rightarrow> uint8" where
  "float_astype_uint8 x = word_of_int (if 0 \<le> x then \<lfloor>x\<rfloor> else \<lceil>x\<rceil>)"

text \<open>\<open>prediction.squeeze()\<close> drops every axis of length one.\<close>

definition squeeze :: "'a ndarray \<Rightarrow> 'a ndarray" where
  "squeeze a = \<lparr>shape = filter (\<lambda>d. d \<noteq> 1) (shape a), data = data a\<rparr>"

text \<open>\<open>target[cond] = v\<close> with a boolean array computed from \<open>src\<close>.\<close>

definition assign_where :: "('a \<Rightarrow> bool) \<Rightarrow> 'b \<Rightarrow> 'a list \<Rightarrow> 'b list \<Rightarrow> 'b list" where
  "assign_where cond v src target = map (\<lambda>(s, t). if cond s then v else t) (zip src target)"

section \<open>segmentation.py: \<open>process_unet_output\<close>\<close>

text \<open>The dictionary \<open>{0: 0, 1: 128, 2: 255}\<close>.\<close>

definition mapping :: "nat \<rightharpoonup> nat" where
  "mapping = [0 \<mapsto> 0, 1 \<mapsto> 128, 2 \<mapsto> 255]"

text \<open>\<open>mapping.get(x, 255)\<close> on a \<open>uint8\<close> class index, stored back as \<open>uint8\<close>.\<close>

definition mapping_get :: "uint8 \<Rightarrow> uint8" where
  "mapping_get x = word_of_nat (case mapping (unat x) of Some v \<Rightarrow> v | None \<Rightarrow> 255)"

definition threshold_3class :: "uint8 list \<Rightarrow> uint8 list" where
  "threshold_3class mask_u8 =
     (let mask_3class = map (\<lambda>_. 0) mask_u8;
          mask_3class = assign_where (\<lambda>m. m < 85) 0 mask_u8 mask_3class;
          mask_3class = assign_where (\<lambda>m. 85 \<le> m \<and> m < 170) 128 mask_u8 mask_3class;
          mask_3class = assign_where (\<lambda>m. 170 \<le> m) 255 mask_u8 mask_3class
      in mask_3class)"

text \<open>
  The function first prints \<open>prediction.min()\<close> and \<open>prediction.max()\<close>, which raise
  \<open>ValueError\<close> on an array without elements. Then it dispatches on the shape; the
  third branch is the \<open>else\<close> of the chain. There \<open>prediction * 255\<close> is an array of the
  dtype of \<open>prediction\<close>, so each element is \<open>fl (x * 255)\<close>, which is then cast.
\<close>

definition process_unet_output :: "(real \<Rightarrow> real) \<Rightarrow> real ndarray \<Rightarrow> error + uint8 ndarray" where
  "process_unet_output fl prediction =
     (if asize prediction = 0 then
        Inl (ValueError ''zero-size array to reduction operation minimum which has no identity'')
      else if ndim prediction = 3 \<and> 3 \<le> last (shape prediction) then
        (let mask_idx = index_astype_uint8 (argmax_last prediction)
         in Inr \<lparr>shape = shape mask_idx, data = map mapping_get (data mask_idx)\<rparr>)
      else if ndim prediction = 3 \<and> last (shape prediction) = 2 then
        (let mask_idx = index_astype_uint8 (argmax_last prediction)
         in Inr \<lparr>shape = shape mask_idx, data = map (\<lambda>i. i * 255) (data mask_idx)\<rparr>)
      else
        (let prediction = (if ndim prediction = 3 then squeeze prediction else prediction);
             mask_u8 = map (\<lambda>x. float_astype_uint8 (fl (x * 255))) (data prediction)
         in Inr \<lparr>shape = shape prediction, data = threshold_3class mask_u8\<rparr>))"

text \<open>The three shape cases of the decoder, on the shape alone.\<close>

definition multi_class_shape :: "nat list \<Rightarrow> bool" where
  "multi_class_shape s \<longleftrightarrow> length s = 3 \<and> 3 \<le> last s"

definition binary_shape :: "nat list \<Rightarrow> bool" where
  "binary_shape s \<longleftrightarrow> length s = 3 \<and> last s = 2"

definition single_channel_shape :: "nat list \<Rightarrow> bool" where
  "single_channel_shape s \<longleftrightarrow> length s = 2 \<or> (length s = 3 \<and> last s = 1)"

definition decodable_shape :: "nat list \<Rightarrow> bool" where
  "decodable_shape s \<longleftrightarrow> multi_class_shape s \<or> binary_shape s \<or> single_channel_shape s"

definition canonical :: "uint8 \<Rightarrow> bool" where
  "canonical v \<longleftrightarrow> v = 0 \<or> v = 128 \<or> v = 255"

text \<open>
  What the claims say about the decoder, as predicates: the three bands of the
  single-channel rule, and the index of the maximum with ties to the lowest index.
\<close>

definition band :: "uint8 \<Rightarrow> uint8" where
  "band m = (if m < 85 then 0 else if m < 170 then 128 else 255)"

definition is_argmax :: "real list \<Rightarrow> nat \<Rightarrow> bool" where
  "is_argmax xs r \<longleftrightarrow>
     r < length xs \<and> (\<forall>j < length xs. xs ! j \<le> xs ! r) \<and> (\<forall>j < r. xs ! j < xs ! r)"

definition class_value :: "nat \<Rightarrow> uint8" where
  "class_value i = (if i = 0 then 0 else if i = 1 then 128 else 255)"

definition scaled_band :: "real \<Rightarrow> uint8" where
  "scaled_band s = (if s < 85 then 0 else if s < 170 then 128 else 255)"

text \<open>
  What the theorems about scaled values assume of the dtype's rounding: it is monotone
  and leaves the integers from 0 to 255 as they are. Rounding to nearest in float16,
  float32 and float64 is of this kind.
\<close>

definition dtype_rounding :: "(real \<Rightarrow> real) \<Rightarrow> bool" where
  "dtype_rounding fl \<longleftrightarrow>
     (\<forall>x y. x \<le> y \<longrightarrow> fl x \<le> fl y) \<and> (\<forall>n \<le> 255. fl (real n) = real n)"

text \<open>
  A dtype rounds a result only where it has to: a result that it represents exactly is
  left as it is. The closed instances below take tensors whose products with 255 are
  exact in float32 and float64 (numerators below \<open>2 ^ 24\<close> over a power of two), and
  \<open>exact\<close> is the rounding on them.
\<close>

definition exact :: "real \<Rightarrow> real" where
  "exact x = x"

section \<open>Images\<close>

text \<open>
  An image of shape \<open>(H, W, 3)\<close>: its pixels in row-major order, each pixel the list of
  its channel values.
\<close>

record 'a image =
  height :: nat
  width :: nat
  pixels :: "'a list list"

definition wf_image :: "'a image \<Rightarrow> bool" where
  "wf_image img \<longleftrightarrow>
     length (pixels img) = height img * width img \<and> (\<forall>px \<in> set (pixels img). length px = 3)"

section \<open>segmentation.py: \<open>create_colored_mask\<close>\<close>

text \<open>\<open>h, w = mask.shape\<close> raises \<open>ValueError\<close> unless the mask has two axes.\<close>

definition create_colored_mask :: "uint8 ndarray \<Rightarrow> error + uint8 image" where
  "create_colored_mask mask_u8 =
     (case shape mask_u8 of
        [h, w] \<Rightarrow>
          (let colored_mask = replicate (h * w) [0, 0, 0];
               colored_mask = assign_where (\<lambda>m. m = 0) [0, 0, 0] (data mask_u8) colored_mask;
               colored_mask = assign_where (\<lambda>m. m = 128) [0, 255, 0] (data mask_u8) colored_mask;
               colored_mask = assign_where (\<lambda>m. m = 255) [255, 0, 0] (data mask_u8) colored_mask
           in Inr \<lparr>height = h, width = w, pixels = colored_mask\<rparr>)
      | s \<Rightarrow> Inl (ValueError (if length s < 2 then ''not enough values to unpack''
                               else ''too many values to unpack'')))"

section \<open>segmentation.py: the resize of the mask in \<open>predict_segmentation\<close>\<close>

text \<open>
  Modelled from the spec: \<open>predict_segmentation\<close> resizes the decoded mask with
  \<open>cv2.resize(mask, original_size, interpolation=cv2.INTER_NEAREST)\<close>, a library call
  whose code is not part of the repository. The spec's MaskResizer copies, for each
  output pixel, the single nearest source pixel under the scale mapping; the mapping
  taken here is the library's, in exact arithmetic: destination coordinate \<open>x\<close> reads
  source coordinate \<open>min (floor (x * ssize / dsize)) (ssize - 1)\<close>. The target size is
  (width, height), as \<open>original_size\<close> is. An empty source or target is an error.
\<close>

definition nearest_index :: "nat \<Rightarrow> nat \<Rightarrow> nat \<Rightarrow> nat" where
  "nearest_index ssize dsize x = min (x * ssize div dsize) (ssize - 1)"

text \<open>
  Modelled from the spec: the MaskResizer on a mask with two axes; every output pixel
  is a copy of the source pixel that \<open>nearest_index\<close> selects in each axis.
\<close>

definition resize_nearest :: "'a ndarray \<Rightarrow> nat \<times> nat \<Rightarrow> error + 'a ndarray" where
  "resize_nearest src dsize =
     (case (shape src, dsize) of
        ([h, w], (dw, dh)) \<Rightarrow>
          if h = 0 \<or> w = 0 \<or> dw = 0 \<or> dh = 0 then Inl (Cv2Error ''Assertion failed'')
          else Inr \<lparr>shape = [dh, dw],
                    data = map (\<lambda>i. data src ! (nearest_index h dh (i div dw) * w
                                                + nearest_index w dw (i mod dw)))
                               [0 ..< dh * dw]\<rparr>
      | _ \<Rightarrow> Inl (Cv2Error ''Assertion failed''))"

section \<open>preprocessing.py\<close>

text \<open>
  \<open>np.mean\<close>. On an empty array numpy gives NaN, for which the test \<open>mean > 0\<close>
  is false; the quotient by zero is 0 here, for which it is false as well. The means
  and the scale factors of the gray-world balance are exact reals here; numpy computes
  the means in float64, where the sums of 8-bit values are exact.
\<close>

definition mean :: "real list \<Rightarrow> real" where
  "mean xs = sum_list xs / real (length xs)"

definition channel :: "nat \<Rightarrow> 'a image \<Rightarrow> 'a list" where
  "channel i img = map (\<lambda>px. px ! i) (pixels img)"

definition astype_float32 :: "uint8 image \<Rightarrow> real image" where
  "astype_float32 img =
     \<lparr>height = height img, width = width img,
      pixels = map (map (\<lambda>v. real (unat v))) (pixels img)\<rparr>"

text \<open>\<open>img_float[:, :, i] = img_float[:, :, i] * f\<close>\<close>

definition scale_channel :: "nat \<Rightarrow> real \<Rightarrow> real image \<Rightarrow> real image" where
  "scale_channel i f img_float =
     img_float\<lparr>pixels := map (\<lambda>px. px[i := px ! i * f]) (pixels img_float)\<rparr>"

text \<open>One round of the loop \<open>for i in range(3)\<close>; the means are those of the input.\<close>

definition balance_channel :: "uint8 image \<Rightarrow> real \<Rightarrow> real image \<Rightarrow> nat \<Rightarrow> real image" where
  "balance_channel img mean_global img_float i =
     (let mean_channel = mean (channel i (astype_float32 img))
      in if mean_channel > 0 then scale_channel i (mean_global / mean_channel) img_float
         else img_float)"

text \<open>\<open>np.clip(img_float, 0, 255).astype(np.uint8)\<close>\<close>

definition clip_astype_uint8 :: "real image \<Rightarrow> uint8 image" where
  "clip_astype_uint8 img_float =
     \<lparr>height = height img_float, width = width img_float,
      pixels = map (map (\<lambda>x. float_astype_uint8 (max 0 (min 255 x)))) (pixels img_float)\<rparr>"

definition gray_world_white_balance :: "uint8 image \<Rightarrow> uint8 image" where
  "gray_world_white_balance img =
     (let img_float = astype_float32 img;
          mean_global = mean (concat (pixels (astype_float32 img)));
          img_float = foldl (balance_channel img mean_global) img_float [0, 1, 2]
      in clip_astype_uint8 img_float)"




section \<open>app.py: \<open>analyze_leaf\<close>\<close>







section \<open>Facts about the numpy operations\<close>

lemma mapping_get_canonical: "canonical (mapping_get x)"
  by (simp add: mapping_get_def mapping_def canonical_def)

lemma assign_where_length [simp]:
  "length target = length src \<Longrightarrow> length (assign_where cond v src target) = length src"
  by (simp add: assign_where_def)

lemma assign_where_nth:
  "length target = length src \<Longrightarrow> i < length src \<Longrightarrow>
   assign_where cond v src target ! i = (if cond (src ! i) then v else target ! i)"
  by (simp add: assign_where_def)

lemma threshold_3class_length [simp]: "length (threshold_3class ms) = length ms"
  by (simp add: threshold_3class_def Let_def)

lemma threshold_3class_nth:
  "i < length ms \<Longrightarrow> threshold_3class ms ! i = band (ms ! i)"
proof -
  assume i: "i < length ms"
  have order: "\<not> (ms ! i < 85 \<and> 170 \<le> ms ! i)"
    by (simp add: word_less_nat_alt word_le_nat_alt)
  from i order show ?thesis
    by (auto simp add: threshold_3class_def Let_def assign_where_nth band_def not_le)
qed

lemma threshold_3class_eq: "threshold_3class ms = map band ms"
  by (rule nth_equalityI) (simp_all add: threshold_3class_nth)

lemma band_canonical: "canonical (band m)"
  by (simp add: band_def canonical_def)

section \<open>Facts about \<open>argmax\<close>\<close>

lemma argmax_scan_is_argmax:
  "b < length ys \<Longrightarrow> v = ys ! b \<Longrightarrow> \<forall>j < length ys. ys ! j \<le> v \<Longrightarrow> \<forall>j < b. ys ! j < v \<Longrightarrow>
   is_argmax (ys @ xs) (argmax_scan (length ys) b v xs)"
proof (induction xs arbitrary: ys b v)
  case Nil
  then show ?case by (simp add: is_argmax_def)
next
  case (Cons x xs)
  show ?case
  proof (cases "v < x")
    case True
    have "is_argmax ((ys @ [x]) @ xs) (argmax_scan (length (ys @ [x])) (length ys) x xs)"
    proof (rule Cons.IH)
      show "\<forall>j<length (ys @ [x]). (ys @ [x]) ! j \<le> x"
        using Cons.prems True by (auto simp add: nth_append less_Suc_eq)
      show "\<forall>j<length ys. (ys @ [x]) ! j < x"
        using Cons.prems True by (auto simp add: nth_append)
    qed simp_all
    with True show ?thesis by simp
  next
    case False
    have "is_argmax ((ys @ [x]) @ xs) (argmax_scan (length (ys @ [x])) b v xs)"
    proof (rule Cons.IH)
      show "b < length (ys @ [x])" using Cons.prems by simp
      show "v = (ys @ [x]) ! b" using Cons.prems by (simp add: nth_append)
      show "\<forall>j<length (ys @ [x]). (ys @ [x]) ! j \<le> v"
        using Cons.prems False by (auto simp add: nth_append less_Suc_eq)
      show "\<forall>j<b. (ys @ [x]) ! j < v"
        using Cons.prems by (auto simp add: nth_append)
    qed
    with False show ?thesis by simp
  qed
qed

lemma argmax_is_argmax: "xs \<noteq> [] \<Longrightarrow> is_argmax xs (argmax xs)"
proof (cases xs)
  case Nil
  assume "xs \<noteq> []"
  with Nil show ?thesis by simp
next
  case (Cons x rest)
  have "is_argmax ([x] @ rest) (argmax_scan (length [x]) 0 x rest)"
    by (rule argmax_scan_is_argmax) simp_all
  with Cons show ?thesis by simp
qed

lemma is_argmax_unique: "is_argmax xs r \<Longrightarrow> is_argmax xs s \<Longrightarrow> r = s"
  unfolding is_argmax_def by (metis linorder_neqE_nat not_le)

lemma argmax_bound: "argmax xs < max 1 (length xs)"
proof (cases "xs = []")
  case True
  then show ?thesis by simp
next
  case False
  then show ?thesis using argmax_is_argmax [OF False] by (simp add: is_argmax_def)
qed

lemma pixel_length_le: "length (pixel c xs p) \<le> c"
  by (simp add: pixel_def)

lemma binary_value_canonical:
  "n < 2 \<Longrightarrow> canonical ((word_of_nat n :: uint8) * 255)"
  by (auto simp add: canonical_def less_2_cases_iff)

section \<open>The decoder\<close>

lemma dtype_rounding_exact: "dtype_rounding exact"
  by (simp add: dtype_rounding_def exact_def)

lemma dtype_rounding_mono: "dtype_rounding fl \<Longrightarrow> x \<le> y \<Longrightarrow> fl x \<le> fl y"
  by (simp add: dtype_rounding_def)

lemma dtype_rounding_nat: "dtype_rounding fl \<Longrightarrow> n \<le> 255 \<Longrightarrow> fl (real n) = real n"
  by (simp add: dtype_rounding_def)

lemma dtype_rounding_between:
  assumes "dtype_rounding fl" "real lo \<le> y" "y \<le> real hi" "hi \<le> 255"
  shows "real lo \<le> fl y" "fl y \<le> real hi"
proof -
  from assms(2,3) have "real lo \<le> real hi" by simp
  then have "lo \<le> hi" by simp
  with assms(4) have lo: "lo \<le> 255" by simp
  from dtype_rounding_mono [OF assms(1,2)] dtype_rounding_nat [OF assms(1) lo]
  show "real lo \<le> fl y" by simp
  from dtype_rounding_mono [OF assms(1,3)] dtype_rounding_nat [OF assms(1,4)]
  show "fl y \<le> real hi" by simp
qed

lemma scaled_in_range:
  assumes "dtype_rounding fl" "0 \<le> x" "x \<le> 1"
  shows "0 \<le> fl (x * 255)" "fl (x * 255) \<le> 255"
proof -
  from assms(2,3) have "real 0 \<le> x * 255" "x * 255 \<le> real 255" by simp_all
  from dtype_rounding_between [OF assms(1) this]
  show "0 \<le> fl (x * 255)" "fl (x * 255) \<le> 255" by simp_all
qed

text \<open>
  C1. For every tensor whose shape is one of the three decoding cases, every pixel of a
  mask that \<open>process_unet_output\<close> returns is 0, 128 or 255; and it does return a mask
  when the tensor has at least one element.
\<close>

theorem decode_canonical:
  assumes "decodable_shape (shape t)"
  shows "(\<forall>m. process_unet_output fl t = Inr m \<longrightarrow> (\<forall>v \<in> set (data m). canonical v)) \<and>
         (0 < asize t \<longrightarrow> (\<exists>m. process_unet_output fl t = Inr m))"
proof -
  have idx: "argmax (pixel 2 xs p) < 2" for xs p
    using argmax_bound [of "pixel 2 xs p"] pixel_length_le [of 2 xs p] by simp
  show ?thesis
    by (auto simp add: process_unet_output_def Let_def index_astype_uint8_def argmax_last_def
          mapping_get_canonical threshold_3class_eq band_canonical binary_value_canonical idx)
qed

theorem decode_canonical_witness:
  "decodable_shape (shape \<lparr>shape = [1, 2], data = [1 / 4, 1 :: real]\<rparr>) \<and>
   process_unet_output exact \<lparr>shape = [1, 2], data = [1 / 4, 1]\<rparr> =
     Inr \<lparr>shape = [1, 2], data = [0, 255]\<rparr> \<and>
   canonical 0 \<and> canonical 255"
proof -
  let ?t = "\<lparr>shape = [1, 2], data = [1 / 4, 1 :: real]\<rparr>"
  have h: "decodable_shape (shape ?t)"
    by (simp add: decodable_shape_def single_channel_shape_def)
  have r: "process_unet_output exact ?t = Inr \<lparr>shape = [1, 2], data = [0, 255]\<rparr>"
    by (simp add: process_unet_output_def asize_def ndim_def Let_def threshold_3class_eq
          band_def float_astype_uint8_def exact_def)
  from decode_canonical [OF h, of exact] r show ?thesis
    using h by auto
qed

subsection \<open>Single-channel tensors\<close>

lemma band_scaled:
  assumes "0 \<le> y" "y < 256"
  shows "band (float_astype_uint8 y) = scaled_band y"
proof -
  have f: "0 \<le> \<lfloor>y\<rfloor>" "\<lfloor>y\<rfloor> < 256" using assms by (simp_all add: floor_less_iff)
  have u: "unat (word_of_int \<lfloor>y\<rfloor> :: uint8) = nat \<lfloor>y\<rfloor>"
    using f by (simp add: unat_eq_nat_uint uint_word_of_int)
  have a: "nat \<lfloor>y\<rfloor> < 85 \<longleftrightarrow> y < 85" using f by (simp add: nat_less_iff floor_less_iff)
  have b: "nat \<lfloor>y\<rfloor> < 170 \<longleftrightarrow> y < 170" using f by (simp add: nat_less_iff floor_less_iff)
  show ?thesis
    using assms(1) u a b
    by (simp add: band_def scaled_band_def float_astype_uint8_def word_less_nat_alt)
qed

lemma single_channel_dispatch:
  assumes "single_channel_shape (shape t)" "0 < asize t"
  shows "process_unet_output fl t =
         Inr \<lparr>shape = (if length (shape t) = 3 then filter (\<lambda>d. d \<noteq> 1) (shape t) else shape t),
              data = map (\<lambda>x. band (float_astype_uint8 (fl (x * 255)))) (data t)\<rparr>"
  using assms
  by (auto simp add: process_unet_output_def single_channel_shape_def ndim_def Let_def
        squeeze_def threshold_3class_eq)

lemma single_channel_scaled:
  assumes "dtype_rounding fl" "single_channel_shape (shape t)" "0 < asize t"
    and "\<forall>x \<in> set (data t). 0 \<le> x \<and> x \<le> 1"
  shows "process_unet_output fl t =
         Inr \<lparr>shape = (if length (shape t) = 3 then filter (\<lambda>d. d \<noteq> 1) (shape t) else shape t),
              data = map (\<lambda>x. scaled_band (fl (x * 255))) (data t)\<rparr>"
proof -
  have "band (float_astype_uint8 (fl (x * 255))) = scaled_band (fl (x * 255))"
    if "x \<in> set (data t)" for x
  proof (rule band_scaled)
    from assms(4) that have x: "0 \<le> x" "x \<le> 1" by simp_all
    from scaled_in_range [OF assms(1) x] show "0 \<le> fl (x * 255)" "fl (x * 255) < 256"
      by simp_all
  qed
  then have "map (\<lambda>x. band (float_astype_uint8 (fl (x * 255)))) (data t) =
             map (\<lambda>x. scaled_band (fl (x * 255))) (data t)"
    by simp
  with assms(2,3) show ?thesis by (simp add: single_channel_dispatch)
qed

text \<open>
  C3. Let the dtype's rounding be monotone and exact on the integers from 0 to 255. A
  non-empty tensor with two axes, or with three axes of which the last has length one,
  with all values in [0, 1], decodes to the squeezed shape; the scaled value
  \<open>s = fl (x * 255)\<close> computed for an element \<open>x\<close> lies in [0, 255], and the pixel is 0
  when \<open>s < 85\<close>, 128 when \<open>85 \<le> s < 170\<close> and 255 when \<open>170 \<le> s\<close>. The (2, 2) tensor
  [0.0, a, b, 1.0], where \<open>a\<close> and \<open>b\<close> are the stored values of 0.3 and 0.6 (within
  0.001 of them), decodes to [0, 0, 128, 255].
\<close>

theorem single_channel_bands:
  "(dtype_rounding fl \<and> single_channel_shape (shape t) \<and> 0 < asize t \<and>
    (\<forall>x \<in> set (data t). 0 \<le> x \<and> x \<le> 1) \<longrightarrow>
      (\<forall>x \<in> set (data t). 0 \<le> fl (x * 255) \<and> fl (x * 255) \<le> 255) \<and>
      process_unet_output fl t =
      Inr \<lparr>shape = (if length (shape t) = 3 then filter (\<lambda>d. d \<noteq> 1) (shape t) else shape t),
           data = map (\<lambda>x. if fl (x * 255) < 85 then 0
                            else if fl (x * 255) < 170 then 128 else 255) (data t)\<rparr>) \<and>
   (dtype_rounding fl \<and> 299 / 1000 \<le> a \<and> a \<le> 301 / 1000 \<and> 599 / 1000 \<le> b \<and> b \<le> 601 / 1000 \<longrightarrow>
      process_unet_output fl \<lparr>shape = [2, 2], data = [0, a, b, 1]\<rparr> =
      Inr \<lparr>shape = [2, 2], data = [0, 0, 128, 255]\<rparr>)"
proof (intro conjI impI)
  assume h: "dtype_rounding fl \<and> single_channel_shape (shape t) \<and> 0 < asize t \<and>
             (\<forall>x \<in> set (data t). 0 \<le> x \<and> x \<le> 1)"
  then show "\<forall>x \<in> set (data t). 0 \<le> fl (x * 255) \<and> fl (x * 255) \<le> 255"
    using scaled_in_range [of fl] by blast
  from h have "process_unet_output fl t =
         Inr \<lparr>shape = (if length (shape t) = 3 then filter (\<lambda>d. d \<noteq> 1) (shape t) else shape t),
              data = map (\<lambda>x. scaled_band (fl (x * 255))) (data t)\<rparr>"
    by (intro single_channel_scaled) simp_all
  then show "process_unet_output fl t =
      Inr \<lparr>shape = (if length (shape t) = 3 then filter (\<lambda>d. d \<noteq> 1) (shape t) else shape t),
           data = map (\<lambda>x. if fl (x * 255) < 85 then 0
                            else if fl (x * 255) < 170 then 128 else 255) (data t)\<rparr>"
    by (simp add: scaled_band_def)
next
  assume h: "dtype_rounding fl \<and> 299 / 1000 \<le> a \<and> a \<le> 301 / 1000 \<and>
             599 / 1000 \<le> b \<and> b \<le> 601 / 1000"
  then have rd: "dtype_rounding fl" by simp
  let ?t = "\<lparr>shape = [2, 2], data = [0, a, b, 1]\<rparr>"
  from h have "\<forall>x \<in> set (data ?t). 0 \<le> x \<and> x \<le> 1" by simp
  then have out: "process_unet_output fl ?t =
      Inr \<lparr>shape = [2, 2], data = map (\<lambda>x. scaled_band (fl (x * 255))) [0, a, b, 1]\<rparr>"
    using single_channel_scaled [OF rd, of ?t] by (simp add: single_channel_shape_def asize_def)
  have z: "fl (0 * 255) = 0" using dtype_rounding_nat [OF rd, of 0] by simp
  have o: "fl (1 * 255) = 255" using dtype_rounding_nat [OF rd, of 255] by simp
  from h have "real 76 \<le> a * 255" "a * 255 \<le> real 77" by simp_all
  from dtype_rounding_between [OF rd this] have sa: "76 \<le> fl (a * 255)" "fl (a * 255) \<le> 77"
    by simp_all
  from h have "real 152 \<le> b * 255" "b * 255 \<le> real 154" by simp_all
  from dtype_rounding_between [OF rd this] have sb: "152 \<le> fl (b * 255)" "fl (b * 255) \<le> 154"
    by simp_all
  have "map (\<lambda>x. scaled_band (fl (x * 255))) [0, a, b, 1] = [0, 0, 128, 255]"
    using z o sa sb by (simp add: scaled_band_def)
  with out show "process_unet_output fl ?t = Inr \<lparr>shape = [2, 2], data = [0, 0, 128, 255]\<rparr>"
    by simp
qed

theorem single_channel_bands_witness:
  "dtype_rounding exact \<and>
   single_channel_shape (shape \<lparr>shape = [1, 3, 1], data = [1 / 4, 1 / 2, 3 / 4 :: real]\<rparr>) \<and>
   0 < asize \<lparr>shape = [1, 3, 1], data = [1 / 4, 1 / 2, 3 / 4 :: real]\<rparr> \<and>
   list_all (\<lambda>x. 0 \<le> x \<and> x \<le> 1) [1 / 4, 1 / 2, 3 / 4 :: real] \<and>
   process_unet_output exact \<lparr>shape = [1, 3, 1], data = [1 / 4, 1 / 2, 3 / 4]\<rparr> =
     Inr \<lparr>shape = [3], data = [0, 128, 255]\<rparr> \<and>
   299 / 1000 \<le> (77 / 256 :: real) \<and> (77 / 256 :: real) \<le> 301 / 1000 \<and>
   599 / 1000 \<le> (307 / 512 :: real) \<and> (307 / 512 :: real) \<le> 601 / 1000 \<and>
   process_unet_output exact \<lparr>shape = [2, 2], data = [0, 77 / 256, 307 / 512, 1]\<rparr> =
     Inr \<lparr>shape = [2, 2], data = [0, 0, 128, 255]\<rparr>"
proof -
  let ?t = "\<lparr>shape = [1, 3, 1], data = [1 / 4, 1 / 2, 3 / 4 :: real]\<rparr>"
  note d = dtype_rounding_exact
  have s: "single_channel_shape (shape ?t)" by (simp add: single_channel_shape_def)
  have p: "0 < asize ?t" by (simp add: asize_def)
  have v: "\<forall>x \<in> set (data ?t). 0 \<le> x \<and> x \<le> 1" by simp
  from d s p v have h: "dtype_rounding exact \<and> single_channel_shape (shape ?t) \<and> 0 < asize ?t \<and>
                        (\<forall>x \<in> set (data ?t). 0 \<le> x \<and> x \<le> 1)"
    by (intro conjI)
  have r: "process_unet_output exact ?t = Inr \<lparr>shape = [3], data = [0, 128, 255]\<rparr>"
    using single_channel_bands [of exact ?t, THEN conjunct1, rule_format, OF h, THEN conjunct2]
    by (simp add: exact_def)
  have l: "list_all (\<lambda>x. 0 \<le> x \<and> x \<le> 1) [1 / 4, 1 / 2, 3 / 4 :: real]" by simp
  have a: "299 / 1000 \<le> (77 / 256 :: real)" "(77 / 256 :: real) \<le> 301 / 1000"
          "599 / 1000 \<le> (307 / 512 :: real)" "(307 / 512 :: real) \<le> 601 / 1000"
    by simp_all
  from d a have k: "dtype_rounding exact \<and> 299 / 1000 \<le> (77 / 256 :: real) \<and>
                    (77 / 256 :: real) \<le> 301 / 1000 \<and> 599 / 1000 \<le> (307 / 512 :: real) \<and>
                    (307 / 512 :: real) \<le> 601 / 1000"
    by (intro conjI)
  have e: "process_unet_output exact \<lparr>shape = [2, 2], data = [0, 77 / 256, 307 / 512, 1]\<rparr> =
           Inr \<lparr>shape = [2, 2], data = [0, 0, 128, 255]\<rparr>"
    by (rule single_channel_bands [of exact _ "77 / 256" "307 / 512", THEN conjunct2,
          rule_format, OF k])
  from d s p l r a e show ?thesis by (intro conjI)
qed

subsection \<open>Shapes outside the three cases\<close>

lemma undecodable_three_axes:
  assumes "\<not> decodable_shape s" "length s = 3"
  shows "prod_list s = 0"
proof -
  from assms have "last s = 0"
    by (auto simp add: decodable_shape_def multi_class_shape_def binary_shape_def
          single_channel_shape_def)
  moreover from assms(2) have "s \<noteq> []" by auto
  ultimately have "0 \<in> set s" by (metis last_in_set)
  then show ?thesis by (simp add: prod_list_zero_iff)
qed

text \<open>
  C4, as the code has it. A tensor whose shape is none of the three cases is not
  rejected for its shape. Without elements it fails with the \<open>ValueError\<close> of
  \<open>prediction.min()\<close>. With at least one element the last branch returns a mask of the
  same shape and size, every pixel 0, 128 or 255; a pixel whose scaled value
  \<open>fl (x * 255)\<close> lies in [0, 256) is 0, 128 or 255 by the band of that value, as for a
  single-channel tensor.
\<close>

theorem undecodable_shape_thresholded:
  assumes "\<not> decodable_shape (shape t)"
  shows "(asize t = 0 \<longrightarrow>
            process_unet_output fl t =
            Inl (ValueError ''zero-size array to reduction operation minimum which has no identity'')) \<and>
         (0 < asize t \<longrightarrow>
            (\<exists>m. process_unet_output fl t = Inr m \<and> shape m = shape t \<and>
                 length (data m) = length (data t) \<and> (\<forall>v \<in> set (data m). canonical v) \<and>
                 (\<forall>i < length (data t).
                    0 \<le> fl (data t ! i * 255) \<and> fl (data t ! i * 255) < 256 \<longrightarrow>
                    data m ! i = (if fl (data t ! i * 255) < 85 then 0
                                  else if fl (data t ! i * 255) < 170 then 128 else 255))))"
proof (intro conjI impI)
  assume "asize t = 0"
  then show "process_unet_output fl t =
            Inl (ValueError ''zero-size array to reduction operation minimum which has no identity'')"
    by (simp add: process_unet_output_def)
next
  assume pos: "0 < asize t"
  define ds where "ds = map (\<lambda>x. band (float_astype_uint8 (fl (x * 255)))) (data t)"
  from pos assms have n3: "ndim t \<noteq> 3"
    using undecodable_three_axes [of "shape t"] by (auto simp add: asize_def ndim_def)
  with pos have out: "process_unet_output fl t = Inr \<lparr>shape = shape t, data = ds\<rparr>"
    by (simp add: process_unet_output_def Let_def threshold_3class_eq ds_def)
  have len: "length ds = length (data t)" by (simp add: ds_def)
  have can: "\<forall>v \<in> set ds. canonical v" by (auto simp add: ds_def band_canonical)
  have px: "ds ! i = (if fl (data t ! i * 255) < 85 then 0
                      else if fl (data t ! i * 255) < 170 then 128 else 255)"
    if "i < length (data t)" "0 \<le> fl (data t ! i * 255)" "fl (data t ! i * 255) < 256" for i
    using that band_scaled [OF that(2,3)] by (simp add: ds_def scaled_band_def)
  from out len can px
  show "\<exists>m. process_unet_output fl t = Inr m \<and> shape m = shape t \<and>
                 length (data m) = length (data t) \<and> (\<forall>v \<in> set (data m). canonical v) \<and>
                 (\<forall>i < length (data t).
                    0 \<le> fl (data t ! i * 255) \<and> fl (data t ! i * 255) < 256 \<longrightarrow>
                    data m ! i = (if fl (data t ! i * 255) < 85 then 0
                                  else if fl (data t ! i * 255) < 170 then 128 else 255))"
    by simp
qed

theorem undecodable_shape_thresholded_witness:
  "\<not> decodable_shape (shape \<lparr>shape = [2], data = [0, 1 :: real]\<rparr>) \<and>
   0 < asize \<lparr>shape = [2], data = [0, 1 :: real]\<rparr> \<and>
   (\<exists>m. process_unet_output exact \<lparr>shape = [2], data = [0, 1]\<rparr> = Inr m \<and> shape m = [2] \<and>
        length (data m) = 2 \<and> data m ! 0 = 0 \<and> data m ! 1 = 255) \<and>
   \<not> decodable_shape (shape \<lparr>shape = [2, 2, 0], data = [] :: real list\<rparr>) \<and>
   asize \<lparr>shape = [2, 2, 0], data = [] :: real list\<rparr> = 0 \<and>
   process_unet_output exact \<lparr>shape = [2, 2, 0], data = []\<rparr> =
     Inl (ValueError ''zero-size array to reduction operation minimum which has no identity'')"
proof -
  let ?t = "\<lparr>shape = [2], data = [0, 1 :: real]\<rparr>"
  let ?u = "\<lparr>shape = [2, 2, 0], data = [] :: real list\<rparr>"
  have h: "\<not> decodable_shape (shape ?t)"
    by (simp add: decodable_shape_def multi_class_shape_def binary_shape_def
          single_channel_shape_def)
  have p: "0 < asize ?t" by (simp add: asize_def)
  from undecodable_shape_thresholded [OF h, of exact, THEN conjunct2, rule_format, OF p]
  obtain m where m: "process_unet_output exact ?t = Inr m" "shape m = shape ?t"
      "length (data m) = length (data ?t)"
      "\<forall>i < length (data ?t).
          0 \<le> exact (data ?t ! i * 255) \<and> exact (data ?t ! i * 255) < 256 \<longrightarrow>
          data m ! i = (if exact (data ?t ! i * 255) < 85 then 0
                        else if exact (data ?t ! i * 255) < 170 then 128 else 255)"
    by blast
  from m(4) have "data m ! 0 = 0" "data m ! 1 = 255" by (simp_all add: exact_def)
  with m(1,2,3)
  have r: "\<exists>m. process_unet_output exact ?t = Inr m \<and> shape m = [2] \<and>
        length (data m) = 2 \<and> data m ! 0 = 0 \<and> data m ! 1 = 255"
    by auto
  have k: "\<not> decodable_shape (shape ?u)"
    by (simp add: decodable_shape_def multi_class_shape_def binary_shape_def
          single_channel_shape_def)
  have z: "asize ?u = 0" by (simp add: asize_def)
  have e: "process_unet_output exact ?u =
     Inl (ValueError ''zero-size array to reduction operation minimum which has no identity'')"
    by (rule undecodable_shape_thresholded [OF k, THEN conjunct1, rule_format, OF z])
  from h p r k z e show ?thesis by (intro conjI)
qed

text \<open>
  C4 as stated fails: a tensor with four axes matches none of the three cases, and
  it is decoded, not rejected. Its scaled value 127.5 is exact in every dtype.
\<close>

theorem four_axes_not_rejected:
  "\<not> decodable_shape (shape \<lparr>shape = [1, 1, 1, 1], data = [1 / 2 :: real]\<rparr>) \<and>
   process_unet_output exact \<lparr>shape = [1, 1, 1, 1], data = [1 / 2]\<rparr> =
   Inr \<lparr>shape = [1, 1, 1, 1], data = [128]\<rparr>"
  by (simp add: decodable_shape_def multi_class_shape_def binary_shape_def
        single_channel_shape_def process_unet_output_def asize_def ndim_def Let_def
        threshold_3class_eq band_def float_astype_uint8_def exact_def)

subsection \<open>Two channels\<close>

lemma pixel_two:
  assumes "length xs = n * 2" "p < n"
  shows "pixel 2 xs p = [xs ! (2 * p), xs ! (2 * p + 1)]"
proof (rule nth_equalityI)
  from assms show "length (pixel 2 xs p) = length [xs ! (2 * p), xs ! (2 * p + 1)]"
    by (simp add: pixel_def)
next
  fix i
  assume "i < length (pixel 2 xs p)"
  with assms have "i = 0 \<or> i = 1" by (auto simp add: pixel_def)
  with assms show "pixel 2 xs p ! i = [xs ! (2 * p), xs ! (2 * p + 1)] ! i"
    by (auto simp add: pixel_def mult.commute)
qed

lemma argmax_two: "argmax [a, b] = (if a < b then 1 else 0)"
  by simp

text \<open>
  C5. A non-empty tensor of shape (h, w, 2) decodes to a mask of shape (h, w) whose
  pixel is 255 where channel 1 is strictly larger than channel 0 (channel 1 wins the
  argmax) and 0 elsewhere (channel 0 wins, ties included); no pixel is 128.
\<close>

theorem binary_two_channel:
  assumes "shape t = [h, w, 2]" "wf_array t" "0 < asize t"
  shows "\<exists>m. process_unet_output fl t = Inr m \<and> shape m = [h, w] \<and> length (data m) = h * w \<and>
             (\<forall>p < h * w. data m ! p =
                (if data t ! (2 * p) < data t ! (2 * p + 1) then 255 else 0)) \<and>
             128 \<notin> set (data m)"
proof -
  define ds :: "uint8 list" where
    "ds = map (\<lambda>p. word_of_nat (argmax (pixel 2 (data t) p)) * 255) [0 ..< h * w]"
  from assms have len: "length (data t) = (h * w) * 2"
    by (simp add: wf_array_def asize_def)
  from assms have out: "process_unet_output fl t = Inr \<lparr>shape = [h, w], data = ds\<rparr>"
    by (simp add: process_unet_output_def ndim_def Let_def index_astype_uint8_def
          argmax_last_def comp_def ds_def)
  have dlen: "length ds = h * w" by (simp add: ds_def)
  have px: "ds ! p = (if data t ! (2 * p) < data t ! (2 * p + 1) then 255 else 0)"
    if "p < h * w" for p
    using that pixel_two [OF len that] by (simp add: ds_def)
  have "ds ! p \<noteq> 128" if "p < h * w" for p
    using px [OF that] by simp
  with dlen have "128 \<notin> set ds"
    by (auto simp add: in_set_conv_nth)
  with out px dlen show ?thesis by simp
qed

theorem binary_two_channel_witness:
  "shape \<lparr>shape = [1, 2, 2], data = [1, 0, 1 / 4, 3 / 4 :: real]\<rparr> = [1, 2, 2] \<and>
   wf_array \<lparr>shape = [1, 2, 2], data = [1, 0, 1 / 4, 3 / 4 :: real]\<rparr> \<and>
   0 < asize \<lparr>shape = [1, 2, 2], data = [1, 0, 1 / 4, 3 / 4 :: real]\<rparr> \<and>
   (\<exists>m. process_unet_output exact \<lparr>shape = [1, 2, 2], data = [1, 0, 1 / 4, 3 / 4]\<rparr> = Inr m \<and>
        shape m = [1, 2] \<and> data m ! 0 = 0 \<and> data m ! 1 = 255 \<and> 128 \<notin> set (data m))"
proof -
  let ?t = "\<lparr>shape = [1, 2, 2], data = [1, 0, 1 / 4, 3 / 4 :: real]\<rparr>"
  have s: "shape ?t = [1, 2, 2]" by simp
  have w: "wf_array ?t" by (simp add: wf_array_def asize_def)
  have p: "0 < asize ?t" by (simp add: asize_def)
  from binary_two_channel [OF s w p, of exact] obtain m where
    m: "process_unet_output exact ?t = Inr m" "shape m = [1, 2]"
       "\<forall>p < 1 * 2. data m ! p = (if data ?t ! (2 * p) < data ?t ! (2 * p + 1) then 255 else 0)"
       "128 \<notin> set (data m)"
    by blast
  from m(3) have "data m ! 0 = 0" "data m ! 1 = 255" by simp_all
  with m s w p show ?thesis by blast
qed

subsection \<open>Three or more channels\<close>

lemma mapping_get_class:
  assumes "i < 256"
  shows "mapping_get (word_of_nat i) = class_value i"
proof -
  from assms have u: "unat (word_of_nat i :: uint8) = i"
    by (simp add: unat_of_nat)
  show ?thesis
    unfolding mapping_get_def u by (simp add: mapping_def class_value_def)
qed

text \<open>
  With at most 256 channels the multi-class branch is the argmax with ties to the
  lowest index, followed by 0 \<mapsto> 0, 1 \<mapsto> 128, and every other index \<mapsto> 255.
\<close>

lemma multi_class_decode:
  assumes "shape t = [h, w, c]" "3 \<le> c" "c \<le> 256" "0 < asize t"
  shows "process_unet_output fl t =
         Inr \<lparr>shape = [h, w],
              data = map (\<lambda>p. class_value (argmax (pixel c (data t) p))) [0 ..< h * w]\<rparr>"
proof -
  have "mapping_get (word_of_nat (argmax (pixel c (data t) p))) =
        class_value (argmax (pixel c (data t) p))" for p
  proof (rule mapping_get_class)
    from argmax_bound [of "pixel c (data t) p"] pixel_length_le [of c "data t" p] assms(2,3)
    show "argmax (pixel c (data t) p) < 256" by simp
  qed
  with assms show ?thesis
    by (simp add: process_unet_output_def ndim_def Let_def index_astype_uint8_def
          argmax_last_def comp_def)
qed

lemma pixel_full:
  assumes "length xs = n * c" "p < n"
  shows "length (pixel c xs p) = c" "i < c \<Longrightarrow> pixel c xs p ! i = xs ! (p * c + i)"
proof -
  from assms(2) have "Suc p \<le> n" by simp
  then have "Suc p * c \<le> n * c" by (rule mult_le_mono1)
  with assms(1) have le: "p * c + c \<le> length xs" by simp
  then show "length (pixel c xs p) = c" by (simp add: pixel_def)
  from le show "i < c \<Longrightarrow> pixel c xs p ! i = xs ! (p * c + i)" by (simp add: pixel_def)
qed

text \<open>
  The decoded class of a pixel is the index of its largest channel value, the lowest
  such index on a tie; where channel 1 (channel 2) is strictly the largest everywhere
  the mask is 128 (255) everywhere.
\<close>

lemma multi_class_argmax:
  assumes "shape t = [h, w, c]" "3 \<le> c" "wf_array t" "p < h * w"
  shows "is_argmax (pixel c (data t) p) (argmax (pixel c (data t) p))"
proof -
  from assms have "length (data t) = (h * w) * c" by (simp add: wf_array_def asize_def)
  from pixel_full(1) [OF this assms(4)] assms(2) have "pixel c (data t) p \<noteq> []" by auto
  then show ?thesis by (rule argmax_is_argmax)
qed

lemma multi_class_dominant:
  assumes "shape t = [h, w, c]" "3 \<le> c" "c \<le> 256" "wf_array t" "0 < asize t" "0 < k" "k < c"
    and dom: "\<forall>p < h * w. \<forall>j < c. j \<noteq> k \<longrightarrow> data t ! (p * c + j) < data t ! (p * c + k)"
  shows "process_unet_output fl t =
         Inr \<lparr>shape = [h, w], data = replicate (h * w) (if k = 1 then 128 else 255)\<rparr>"
proof -
  from assms have len: "length (data t) = (h * w) * c" by (simp add: wf_array_def asize_def)
  have "argmax (pixel c (data t) p) = k" if p: "p < h * w" for p
  proof (rule is_argmax_unique)
    show "is_argmax (pixel c (data t) p) (argmax (pixel c (data t) p))"
      using assms(1,2,4) p by (rule multi_class_argmax)
    show "is_argmax (pixel c (data t) p) k"
      unfolding is_argmax_def
    proof (intro conjI allI impI)
      show "k < length (pixel c (data t) p)" using pixel_full(1) [OF len p] assms(7) by simp
    next
      fix j assume "j < length (pixel c (data t) p)"
      then have j: "j < c" using pixel_full(1) [OF len p] by simp
      show "pixel c (data t) p ! j \<le> pixel c (data t) p ! k"
      proof (cases "j = k")
        case True then show ?thesis by simp
      next
        case False
        with dom p j have "data t ! (p * c + j) < data t ! (p * c + k)" by simp
        then show ?thesis using pixel_full(2) [OF len p] j assms(7) by simp
      qed
    next
      fix j assume jk: "j < k"
      with assms(7) have j: "j < c" by simp
      from dom p j jk have "data t ! (p * c + j) < data t ! (p * c + k)" by simp
      then show "pixel c (data t) p ! j < pixel c (data t) p ! k"
        using pixel_full(2) [OF len p] j assms(7) by simp
    qed
  qed
  then have "map (\<lambda>p. class_value (argmax (pixel c (data t) p))) [0 ..< h * w] =
             map (\<lambda>p. class_value k) [0 ..< h * w]"
    by simp
  also have "\<dots> = replicate (h * w) (class_value k)"
    by (simp add: map_replicate_const)
  finally show ?thesis
    using multi_class_decode [OF assms(1,2,3,5)] assms(6) by (simp add: class_value_def)
qed

lemma argmax_scan_replicate:
  "x \<le> v \<Longrightarrow> argmax_scan i b v (replicate n x @ ys) = argmax_scan (i + n) b v ys"
  by (induction n arbitrary: i) simp_all

text \<open>
  C2, at 257 channels. The single pixel has value 0 in channels 0 to 255 and value 1
  in channel 256, so its argmax is 256; the claim's class value for index 256 is 255,
  and the decoded pixel is 0, since the index is stored as \<open>uint8\<close> before it is
  looked up.
\<close>

theorem class_index_256_wraps:
  "argmax (0 # replicate 255 0 @ [1]) = 256 \<and> class_value 256 = 255 \<and>
   process_unet_output fl \<lparr>shape = [1, 1, 257], data = 0 # replicate 255 0 @ [1]\<rparr> =
   Inr \<lparr>shape = [1, 1], data = [0]\<rparr>"
proof -
  have a: "argmax (0 # replicate 255 0 @ [1]) = 256"
    by (simp add: argmax_scan_replicate)
  have p: "pixel 257 (0 # replicate 255 0 @ [1 :: real]) 0 = 0 # replicate 255 0 @ [1]"
    by (simp add: pixel_def)
  have al: "argmax_last \<lparr>shape = [1, 1, 257], data = 0 # replicate 255 0 @ [1]\<rparr> =
            \<lparr>shape = [1, 1], data = [256]\<rparr>"
    using a p by (simp add: argmax_last_def del: argmax.simps)
  have r: "process_unet_output fl \<lparr>shape = [1, 1, 257], data = 0 # replicate 255 0 @ [1]\<rparr> =
        Inr \<lparr>shape = [1, 1], data = [0]\<rparr>"
    unfolding process_unet_output_def Let_def al
    by (simp add: asize_def ndim_def index_astype_uint8_def mapping_get_def mapping_def)
  have c: "class_value 256 = 255" by (simp add: class_value_def)
  from a c r show ?thesis by (intro conjI)
qed

section \<open>The coloured mask\<close>

text \<open>
  C10. For a mask with two axes \<open>create_colored_mask\<close> raises no error, and every pixel
  whose value is not 0, 128 or 255 is rendered as [0, 0, 0], the colour of background.
\<close>

theorem colored_mask_other_values_black:
  assumes "shape m = [h, w]" "wf_array m"
  shows "\<exists>img. create_colored_mask m = Inr img \<and> height img = h \<and> width img = w \<and>
               length (pixels img) = h * w \<and>
               (\<forall>i < h * w. \<not> canonical (data m ! i) \<longrightarrow> pixels img ! i = [0, 0, 0]) \<and>
               (\<forall>i < h * w. data m ! i = 0 \<longrightarrow> pixels img ! i = [0, 0, 0])"
proof -
  from assms have len: "length (data m) = h * w" by (simp add: wf_array_def asize_def)
  define c0 :: "uint8 list list" where "c0 = replicate (h * w) [0, 0, 0]"
  define c1 where "c1 = assign_where (\<lambda>m. m = 0) [0, 0, 0] (data m) c0"
  define c2 where "c2 = assign_where (\<lambda>m. m = 128) [0, 255, 0] (data m) c1"
  define c3 where "c3 = assign_where (\<lambda>m. m = 255) [255, 0, 0] (data m) c2"
  have l0: "length c0 = length (data m)" using len by (simp add: c0_def)
  have l1: "length c1 = length (data m)" using l0 by (simp add: c1_def)
  have l2: "length c2 = length (data m)" using l1 by (simp add: c2_def)
  have l3: "length c3 = length (data m)" using l2 by (simp add: c3_def)
  have out: "create_colored_mask m = Inr \<lparr>height = h, width = w, pixels = c3\<rparr>"
    using assms(1) by (simp add: create_colored_mask_def Let_def c0_def c1_def c2_def c3_def)
  have px: "c3 ! i = (if data m ! i = 255 then [255, 0, 0]
                      else if data m ! i = 128 then [0, 255, 0] else [0, 0, 0])"
    if "i < h * w" for i
    using that len l0 l1 l2
    by (simp add: c3_def c2_def c1_def assign_where_nth) (simp add: c0_def)
  from out l3 len px show ?thesis by (simp add: canonical_def)
qed

theorem colored_mask_other_values_black_witness:
  "shape \<lparr>shape = [1, 2], data = [7, 128 :: uint8]\<rparr> = [1, 2] \<and>
   wf_array \<lparr>shape = [1, 2], data = [7, 128 :: uint8]\<rparr> \<and> \<not> canonical 7 \<and>
   (\<exists>img. create_colored_mask \<lparr>shape = [1, 2], data = [7, 128]\<rparr> = Inr img \<and>
          pixels img ! 0 = [0, 0, 0])"
proof -
  let ?m = "\<lparr>shape = [1, 2], data = [7, 128 :: uint8]\<rparr>"
  have s: "shape ?m = [1, 2]" by simp
  have w: "wf_array ?m" by (simp add: wf_array_def asize_def)
  have n: "\<not> canonical (data ?m ! 0)" by (simp add: canonical_def)
  from colored_mask_other_values_black [OF s w] obtain img where
    i: "create_colored_mask ?m = Inr img"
       "\<forall>i < 1 * 2. \<not> canonical (data ?m ! i) \<longrightarrow> pixels img ! i = [0, 0, 0]"
    by blast
  from i(2) n have "pixels img ! 0 = [0, 0, 0]" by simp
  with i(1) s w n show ?thesis by auto
qed

section \<open>The mask statistics\<close>




section \<open>Failure of the preprocessing\<close>





section \<open>The resizer\<close>

lemma nearest_index_down:
  assumes "0 < k" "y < n"
  shows "nearest_index (k * n) n y = y * k"
proof -
  from assms have n: "0 < n" by simp
  have "y * (k * n) div n = y * k"
    using n by (simp add: mult.assoc [symmetric])
  moreover have "y * k \<le> k * n - 1"
  proof -
    from assms(2) have "Suc y \<le> n" by simp
    then have "Suc y * k \<le> n * k" by (rule mult_le_mono1)
    with assms(1) show ?thesis by (simp add: mult.commute)
  qed
  ultimately show ?thesis by (simp add: nearest_index_def)
qed

lemma nearest_index_up:
  assumes "0 < k" "y < n"
  shows "nearest_index n (k * n) (y * k) = y"
proof -
  have "y * k * n div (k * n) = y"
    using assms by (simp add: mult.assoc)
  with assms(2) show ?thesis by (simp add: nearest_index_def)
qed

lemma grid_index:
  assumes "x < (c :: nat)"
  shows "(y * c + x) div c = y" "(y * c + x) mod c = x"
  using assms by simp_all

lemma grid_bound:
  assumes "y < r" "x < c"
  shows "y * c + x < r * (c :: nat)"
proof -
  from assms(1) have "Suc y \<le> r" by simp
  then have "Suc y * c \<le> r * c" by (rule mult_le_mono1)
  with assms(2) show ?thesis by simp
qed

text \<open>
  C7. Resizing a non-empty mask of shape (h, w) to (ky * h, kx * w) with integer
  factors kx, ky \<ge> 1 and back to (h, w), nearest-neighbour both ways, gives the mask
  back, pixel for pixel.
\<close>

theorem resize_round_trip:
  assumes "shape m = [h, w]" "wf_array m" "0 < h" "0 < w" "0 < kx" "0 < ky"
  shows "\<exists>up. resize_nearest m (kx * w, ky * h) = Inr up \<and> shape up = [ky * h, kx * w] \<and>
              resize_nearest up (w, h) = Inr m"
proof -
  define f where "f i = data m ! (nearest_index h (ky * h) (i div (kx * w)) * w
                                  + nearest_index w (kx * w) (i mod (kx * w)))" for i
  define us where "us = map f [0 ..< ky * h * (kx * w)]"
  define up where "up = \<lparr>shape = [ky * h, kx * w], data = us\<rparr>"
  from assms have len: "length (data m) = h * w" by (simp add: wf_array_def asize_def)
  from assms have r1: "resize_nearest m (kx * w, ky * h) = Inr up"
    by (simp add: resize_nearest_def up_def us_def f_def)
  have rt: "us ! (nearest_index (ky * h) h (i div w) * (kx * w) + nearest_index (kx * w) w (i mod w))
              = data m ! i" if i: "i < h * w" for i
  proof -
    define y x where "y = i div w" and "x = i mod w"
    from i assms(4) have y: "y < h" and x: "x < w"
      by (simp_all add: y_def x_def less_mult_imp_div_less mult.commute)
    have yx: "y * w + x = i" by (simp add: y_def x_def)
    have ny: "nearest_index (ky * h) h y = y * ky" using assms(6) y by (rule nearest_index_down)
    have nx: "nearest_index (kx * w) w x = x * kx" using assms(5) x by (rule nearest_index_down)
    have xk: "x * kx < kx * w" using x assms(5) by (simp add: mult.commute)
    have yk: "y * ky < ky * h" using y assms(6) by (simp add: mult.commute)
    have J: "y * ky * (kx * w) + x * kx < ky * h * (kx * w)" using yk xk by (rule grid_bound)
    have "us ! (y * ky * (kx * w) + x * kx) = f (y * ky * (kx * w) + x * kx)"
      using J by (simp add: us_def)
    also have "\<dots> = data m ! (nearest_index h (ky * h) (y * ky) * w + nearest_index w (kx * w) (x * kx))"
      unfolding f_def grid_index [OF xk] ..
    also have "\<dots> = data m ! (y * w + x)"
      using nearest_index_up [OF assms(6) y] nearest_index_up [OF assms(5) x] by simp
    finally show ?thesis using ny nx yx by (simp add: y_def x_def)
  qed
  have "map (\<lambda>i. us ! (nearest_index (ky * h) h (i div w) * (kx * w)
                         + nearest_index (kx * w) w (i mod w))) [0 ..< h * w] = data m"
    by (rule nth_equalityI) (simp_all add: len rt)
  with assms have r2: "resize_nearest up (w, h) = Inr m"
    by (simp add: resize_nearest_def up_def)
  from r1 r2 show ?thesis by (auto simp add: up_def)
qed

theorem resize_round_trip_witness:
  "shape \<lparr>shape = [1, 2], data = [0, 255 :: uint8]\<rparr> = [1, 2] \<and>
   wf_array \<lparr>shape = [1, 2], data = [0, 255 :: uint8]\<rparr> \<and>
   (\<exists>up. resize_nearest \<lparr>shape = [1, 2], data = [0, 255 :: uint8]\<rparr> (2 * 2, 3 * 1) = Inr up \<and>
         resize_nearest up (2, 1) = Inr \<lparr>shape = [1, 2], data = [0, 255]\<rparr>)"
proof -
  let ?m = "\<lparr>shape = [1, 2], data = [0, 255 :: uint8]\<rparr>"
  have s: "shape ?m = [1, 2]" by simp
  have w: "wf_array ?m" by (simp add: wf_array_def asize_def)
  from resize_round_trip [OF s w, of 2 3] s w show ?thesis by auto
qed

section \<open>Gray-world white balance\<close>

lemma uint8_round_trip: "float_astype_uint8 (max 0 (min 255 (real (unat (v :: uint8))))) = v"
proof -
  define n where "n = unat v"
  have "n < 2 ^ LENGTH(8)" unfolding n_def by (rule unsigned_less)
  then have n: "n \<le> 255" by simp
  have v: "word_of_nat n = v" by (simp add: n_def)
  from n have "max 0 (min 255 (real n)) = real n" by simp
  moreover have "float_astype_uint8 (real n) = word_of_nat n"
    by (simp add: float_astype_uint8_def)
  ultimately have "float_astype_uint8 (max 0 (min 255 (real n))) = v" using v by simp
  then show ?thesis unfolding n_def .
qed

lemma clip_astype_float: "clip_astype_uint8 (astype_float32 img) = img"
proof -
  have "map (map (\<lambda>x. float_astype_uint8 (max 0 (min 255 x))))
          (map (map (\<lambda>v. real (unat v))) (pixels img)) = pixels img"
    by (simp only: map_map comp_def uint8_round_trip) simp
  then show ?thesis
    unfolding clip_astype_uint8_def astype_float32_def by simp
qed

lemma scale_channel_one: "scale_channel i 1 img_float = img_float"
  by (simp add: scale_channel_def)

lemma sum_three: "length px = 3 \<Longrightarrow> sum_list px = px ! 0 + px ! 1 + (px ! 2 :: real)"
proof (cases px)
  case Nil
  assume "length px = 3"
  with Nil show ?thesis by simp
next
  case (Cons a qs)
  assume l: "length px = 3"
  show ?thesis
  proof (cases qs)
    case Nil
    with Cons l show ?thesis by simp
  next
    case (Cons b rs)
    note q = this
    show ?thesis
    proof (cases rs)
      case Nil
      with q \<open>px = a # qs\<close> l show ?thesis by simp
    next
      case (Cons c ss)
      with q \<open>px = a # qs\<close> l have "px = [a, b, c]" by simp
      then show ?thesis by simp
    qed
  qed
qed

lemma sum_concat_channels:
  "\<forall>px \<in> set pxs. length px = 3 \<Longrightarrow>
   sum_list (concat pxs) =
     sum_list (map (\<lambda>px. px ! 0) pxs) + sum_list (map (\<lambda>px. px ! 1) pxs)
     + (sum_list (map (\<lambda>px. px ! 2) pxs) :: real)"
  by (induction pxs) (simp_all add: sum_three)

lemma length_concat_channels:
  "\<forall>px \<in> set pxs. length px = 3 \<Longrightarrow> length (concat pxs) = 3 * length pxs"
  by (induction pxs) simp_all

lemma mean_global_gray:
  assumes wf: "\<forall>px \<in> set pxs. length px = 3" and ne: "pxs \<noteq> []"
    and e1: "mean (map (\<lambda>px. px ! 0) pxs) = mean (map (\<lambda>px. px ! 1) pxs)"
    and e2: "mean (map (\<lambda>px. px ! 1) pxs) = mean (map (\<lambda>px. px ! 2) pxs)"
  shows "mean (concat pxs) = mean (map (\<lambda>px. px ! 0) pxs)"
proof -
  define s0 s1 s2 where "s0 = sum_list (map (\<lambda>px. px ! 0) pxs)"
    and "s1 = sum_list (map (\<lambda>px. px ! 1) pxs)" and "s2 = sum_list (map (\<lambda>px. px ! 2) pxs)"
  define n where "n = real (length pxs)"
  from ne have n: "n \<noteq> 0" by (simp add: n_def)
  from e1 n have a: "s1 = s0" by (simp add: mean_def s0_def s1_def n_def)
  from e2 n have b: "s2 = s1" by (simp add: mean_def s1_def s2_def n_def)
  have "sum_list (concat pxs) = s0 + s1 + s2"
    unfolding s0_def s1_def s2_def by (rule sum_concat_channels [OF wf])
  with a b have c: "sum_list (concat pxs) = 3 * s0" by simp
  have l: "real (length (concat pxs)) = 3 * n"
    by (simp add: length_concat_channels [OF wf] n_def)
  have "mean (concat pxs) = (3 * s0) / (3 * n)" by (simp only: mean_def c l)
  also have "\<dots> = s0 / n" by simp
  finally show ?thesis by (simp add: mean_def s0_def n_def)
qed

lemma balance_channel_gray:
  assumes "mean (channel i (astype_float32 img)) = mean_global"
  shows "balance_channel img mean_global img_float i = img_float"
  using assms by (simp add: balance_channel_def Let_def scale_channel_one)

text \<open>
  C8. On a non-empty image whose three channel means are equal the gray-world balance
  returns its input: the global mean equals each channel mean, every scale factor is 1
  (or the channel is left alone when its mean is 0), and clipping and truncation give
  back the 8-bit values.
\<close>

theorem gray_world_identity:
  assumes "wf_image img" "pixels img \<noteq> []"
    and "mean (channel 0 (astype_float32 img)) = mean (channel 1 (astype_float32 img))"
    and "mean (channel 1 (astype_float32 img)) = mean (channel 2 (astype_float32 img))"
  shows "gray_world_white_balance img = img"
proof -
  let ?F = "astype_float32 img"
  from assms(1) have wf: "\<forall>px \<in> set (pixels ?F). length px = 3"
    by (simp add: wf_image_def astype_float32_def)
  from assms(2) have ne: "pixels ?F \<noteq> []" by (simp add: astype_float32_def)
  have g: "mean (concat (pixels ?F)) = mean (channel 0 ?F)"
    unfolding channel_def using wf ne assms(3,4) [unfolded channel_def]
    by (rule mean_global_gray)
  have b0: "balance_channel img (mean (concat (pixels ?F))) X 0 = X" for X
    by (rule balance_channel_gray) (simp only: g)
  have b1: "balance_channel img (mean (concat (pixels ?F))) X 1 = X" for X
    by (rule balance_channel_gray) (simp only: g assms(3))
  have b2: "balance_channel img (mean (concat (pixels ?F))) X 2 = X" for X
    by (rule balance_channel_gray) (simp only: g assms(3) assms(4))
  have "foldl (balance_channel img (mean (concat (pixels ?F)))) ?F [0, 1, 2] = ?F"
    by (simp only: foldl.simps b0 b1 b2)
  then show ?thesis
    by (simp add: gray_world_white_balance_def Let_def clip_astype_float)
qed

theorem gray_world_identity_witness:
  "wf_image \<lparr>height = 1, width = 2, pixels = [[10, 30, 20], [30, 10, 20 :: uint8]]\<rparr> \<and>
   mean (channel 0 (astype_float32 \<lparr>height = 1, width = 2, pixels = [[10, 30, 20], [30, 10, 20]]\<rparr>)) = 20 \<and>
   mean (channel 1 (astype_float32 \<lparr>height = 1, width = 2, pixels = [[10, 30, 20], [30, 10, 20]]\<rparr>)) = 20 \<and>
   mean (channel 2 (astype_float32 \<lparr>height = 1, width = 2, pixels = [[10, 30, 20], [30, 10, 20]]\<rparr>)) = 20 \<and>
   gray_world_white_balance \<lparr>height = 1, width = 2, pixels = [[10, 30, 20], [30, 10, 20]]\<rparr> =
     \<lparr>height = 1, width = 2, pixels = [[10, 30, 20], [30, 10, 20]]\<rparr>"
proof -
  let ?img = "\<lparr>height = 1, width = 2, pixels = [[10, 30, 20], [30, 10, 20 :: uint8]]\<rparr>"
  have w: "wf_image ?img" by (simp add: wf_image_def)
  have n: "pixels ?img \<noteq> []" by simp
  have m: "mean (channel 0 (astype_float32 ?img)) = 20"
          "mean (channel 1 (astype_float32 ?img)) = 20"
          "mean (channel 2 (astype_float32 ?img)) = 20"
    by (simp_all add: mean_def channel_def astype_float32_def)
  have "gray_world_white_balance ?img = ?img"
    by (rule gray_world_identity [OF w n]) (simp_all only: m)
  with w m show ?thesis by (intro conjI)
qed

end
